theory Spec2Isabelle
  imports Main "HOL-Library.AList"
begin

section \<open>Python values, exceptions and strings\<close>

text \<open>
  The exceptions a call on an \<open>EnumStateSpace\<close> can end in. The first four are the
  built-in exceptions of the interpreter and of the \<open>enum\<close> module that the code
  of \<open>statespace.py\<close> can raise. The last two are the error kinds the specification
  names; \<open>statespace.py\<close> defines no such classes and has no \<open>raise\<close> statement.
\<close>

datatype error =
    KeyError
  | ValueError
  | TypeError
  | ZeroDivisionError
  | InvalidDomainError
  | UnknownBasisElementError

text \<open>
  A basis element or selector is a \<open>str\<close>, an \<open>int\<close> or a \<open>float\<close>
  (\<open>Collection[str | int | float]\<close>). Floats are kept abstract: the type \<open>'f\<close>
  stands for them and every function that stringifies takes the rendering of a
  float, \<open>float_str\<close>, as a parameter.
\<close>

datatype 'f pyval = PyStr string | PyInt int | PyFloat 'f

definition digit_char :: "nat \<Rightarrow> char" where
  "digit_char d = ''0123456789'' ! d"

fun str_nat :: "nat \<Rightarrow> string" where
  "str_nat n = (if n < 10 then [digit_char n] else str_nat (n div 10) @ [digit_char (n mod 10)])"

declare str_nat.simps [simp del]

definition str_int :: "int \<Rightarrow> string" where
  "str_int i = (if i < 0 then CHR ''-'' # str_nat (nat (- i)) else str_nat (nat i))"

text \<open>\<open>str(e)\<close>: the identity on strings, the decimal numeral of an integer.\<close>

fun py_str :: "('f \<Rightarrow> string) \<Rightarrow> 'f pyval \<Rightarrow> string" where
  "py_str float_str (PyStr s) = s"
| "py_str float_str (PyInt i) = str_int i"
| "py_str float_str (PyFloat x) = float_str x"

text \<open>\<open>sep.join(results)\<close>.\<close>

fun join :: "string \<Rightarrow> string list \<Rightarrow> string" where
  "join sep [] = []"
| "join sep [x] = x"
| "join sep (x # y # ys) = x @ sep @ join sep (y # ys)"

section \<open>Dictionaries\<close>

text \<open>
  A Python \<open>dict\<close> is an association list with distinct keys in insertion order:
  \<open>d[k]\<close> is \<open>map_of d k\<close> (\<open>None\<close> is the \<open>KeyError\<close>), \<open>d[k] = v\<close> is
  \<open>AList.update k v d\<close>, which overwrites in place or appends a new key.
  \<open>dict_comp keys v\<close> is the comprehension \<open>{key: v for key in keys}\<close>.
\<close>

definition dict_comp :: "'k list \<Rightarrow> 'v \<Rightarrow> ('k \<times> 'v) list" where
  "dict_comp keys v = foldl (\<lambda>d key. AList.update key v d) [] keys"

section \<open>The enumeration\<close>

text \<open>
  A member of an \<open>Enum\<close> class has a \<open>name\<close> and a \<open>value\<close>; the class is the
  list of its members in definition order.

  \<open>Enum_functional names\<close> is the call \<open>Enum('scalar_states', names, start=0)\<close>
  (line 142) for a list of label strings that the \<open>enum\<close> module takes as member
  names: the \<open>i\<close>-th label becomes the member of value \<open>i\<close>, and a label that
  occurs twice is refused with \<open>TypeError\<close>. The labels are taken to be ordinary
  names. What the module does with the names it treats specially is outside the
  model: the empty string and \<open>mro\<close>, names that begin and end with an underscore
  such as \<open>_x_\<close> and \<open>__x__\<close>, and names that begin with
  \<open>_scalar_states__\<close>.

  \<open>enum_call enum v\<close> is the lookup by value \<open>self.enum_states(v)\<close> (lines 145
  and 172), which raises
  \<open>ValueError\<close> when no member has that value (on an enumeration without
  members interpreters from 3.12 on raise \<open>TypeError\<close> at the same place).
  \<open>enum_contains enum m\<close> is \<open>m in self.enum_states\<close> and \<open>length enum\<close> is
  \<open>len(self.enum_states)\<close>.
\<close>

datatype enum_member = Member (member_name: string) (member_value: int)

definition Enum_functional :: "string list \<Rightarrow> error + enum_member list" where
  "Enum_functional names =
     (if distinct names
      then Inr (map (\<lambda>(i, n). Member n (int i)) (enumerate 0 names))
      else Inl TypeError)"

definition enum_call :: "enum_member list \<Rightarrow> int \<Rightarrow> error + enum_member" where
  "enum_call enum v =
     (case find (\<lambda>m. member_value m = v) enum of
        None \<Rightarrow> Inl ValueError
      | Some m \<Rightarrow> Inr m)"

definition enum_contains :: "enum_member list \<Rightarrow> enum_member \<Rightarrow> bool" where
  "enum_contains enum m \<longleftrightarrow> m \<in> set enum"

section \<open>The state space\<close>

text \<open>
  The attributes of an \<open>EnumStateSpace\<close> object. A call takes the object
  and returns what the call returns or raises, together with the object as the call
  leaves it.
\<close>

record EnumStateSpace =
  basis_elements :: "string list"
  enum_states :: "enum_member list"
  scalars :: "(string \<times> enum_member) list"

type_synonym 'a outcome = "(error + 'a) \<times> EnumStateSpace"

text \<open>
  \<open>StateSpace.__init__\<close> (lines 15 to 29): the stringified basis elements and a
  scalar \<open>0\<close> for each of them.
\<close>

definition StateSpace_init ::
  "('f \<Rightarrow> string) \<Rightarrow> 'f pyval list \<Rightarrow> string list \<times> (string \<times> int) list" where
  "StateSpace_init float_str basis =
     (let stringified_elements = map (py_str float_str) basis
      in (stringified_elements, dict_comp stringified_elements 0))"

text \<open>
  \<open>EnumStateSpace.__init__\<close> (lines 128 to 148): the base class's initialisation, the enumeration,
  its member of value 0 as origin state, and the scalars overwritten with the origin
  state. An exception leaves the constructor without an object.
\<close>

definition EnumStateSpace_init ::
  "('f \<Rightarrow> string) \<Rightarrow> 'f pyval list \<Rightarrow> string list \<Rightarrow> error + EnumStateSpace" where
  "EnumStateSpace_init float_str basis enum_labels =
     (case StateSpace_init float_str basis of
        (basis_elems, zero_scalars) \<Rightarrow>
          (case Enum_functional enum_labels of
             Inl e \<Rightarrow> Inl e
           | Inr enum \<Rightarrow>
               (case enum_call enum 0 of
                  Inl e \<Rightarrow> Inl e
                | Inr origin_state \<Rightarrow>
                    Inr \<lparr>basis_elements = basis_elems,
                         enum_states = enum,
                         scalars = dict_comp basis_elems origin_state\<rparr>)))"

text \<open>
  \<open>EnumStateSpace.check\<close> (lines 150 to 159): the loop over
  \<open>self.scalars.items()\<close>, which returns \<open>False\<close> at the first scalar that is not
  in the enumeration.
\<close>

fun check_items :: "enum_member list \<Rightarrow> (string \<times> enum_member) list \<Rightarrow> bool" where
  "check_items enum [] = True"
| "check_items enum ((basis_name, state_name) # items) =
     (if \<not> enum_contains enum state_name then False else check_items enum items)"

definition check :: "EnumStateSpace \<Rightarrow> bool outcome" where
  "check self = (Inr (check_items (enum_states self) (scalars self)), self)"

text \<open>
  \<open>EnumStateSpace.update\<close> (lines 161 to 173), statement by statement. The dictionary lookup, the
  remainder and the lookup by value can each raise; all three come before the one
  assignment, so an exception leaves the object as it was.
\<close>

definition update :: "('f \<Rightarrow> string) \<Rightarrow> EnumStateSpace \<Rightarrow> 'f pyval \<Rightarrow> unit outcome" where
  "update float_str self basis_element =
     (let total_states = int (length (enum_states self));
          basis_elem = py_str float_str basis_element
      in case map_of (scalars self) basis_elem of
           None \<Rightarrow> (Inl KeyError, self)
         | Some scalar_state \<Rightarrow>
             (let int_value = member_value scalar_state
              in if total_states = 0 then (Inl ZeroDivisionError, self)
                 else (let new_value = (int_value + 1) mod total_states
                       in case enum_call (enum_states self) new_value of
                            Inl e \<Rightarrow> (Inl e, self)
                          | Inr new_state \<Rightarrow>
                              (Inr (),
                               self\<lparr>scalars :=
                                 AList.update basis_elem new_state (scalars self)\<rparr>))))"

text \<open>\<open>EnumStateSpace.resolve\<close> (lines 175 to 183) returns \<open>None\<close>.\<close>

definition resolve :: "EnumStateSpace \<Rightarrow> unit outcome" where
  "resolve self = (Inr (), self)"

text \<open>
  \<open>EnumStateSpace.__str__\<close> (lines 185 to 193): one \<open>"%s<%s>"\<close> of member name
  and key per basis element, joined by \<open>" + "\<close>.
\<close>

fun str_results :: "(string \<times> enum_member) list \<Rightarrow> string list \<Rightarrow> error + string list" where
  "str_results sc [] = Inr []"
| "str_results sc (key # keys) =
     (case map_of sc key of
        None \<Rightarrow> Inl KeyError
      | Some m \<Rightarrow>
          (case str_results sc keys of
             Inl e \<Rightarrow> Inl e
           | Inr results \<Rightarrow> Inr ((member_name m @ ''<'' @ key @ ''>'') # results)))"

definition EnumStateSpace_str :: "EnumStateSpace \<Rightarrow> string outcome" where
  "EnumStateSpace_str self =
     (case str_results (scalars self) (basis_elements self) of
        Inl e \<Rightarrow> (Inl e, self)
      | Inr results \<Rightarrow> (Inr (join '' + '' results), self))"










text \<open>
  A sequence of \<open>update\<close> calls, as in the script at the end of the module; the
  first exception ends it.
\<close>

fun updates :: "('f \<Rightarrow> string) \<Rightarrow> EnumStateSpace \<Rightarrow> 'f pyval list \<Rightarrow> unit outcome" where
  "updates float_str self [] = (Inr (), self)"
| "updates float_str self (x # xs) =
     (case update float_str self x of
        (Inl e, self') \<Rightarrow> (Inl e, self')
      | (Inr _, self') \<Rightarrow> updates float_str self' xs)"

text \<open>
  The instances: what the constructor returns, and what \<open>update\<close> calls make of it.
\<close>

inductive reachable :: "('f \<Rightarrow> string) \<Rightarrow> EnumStateSpace \<Rightarrow> bool" for float_str where
  constructed: "EnumStateSpace_init float_str basis enum_labels = Inr self
     \<Longrightarrow> reachable float_str self"
| updated: "reachable float_str self
     \<Longrightarrow> reachable float_str (snd (update float_str self x))"

text \<open>
  The object \<open>bar\<close> of the module's script (line 197) and the updates the script
  applies to it (lines 202 to 211).
\<close>

definition bar :: "('f \<Rightarrow> string) \<Rightarrow> error + EnumStateSpace" where
  "bar float_str =
     EnumStateSpace_init float_str
       [PyStr ''e1'', PyStr ''e2'', PyStr ''e3'']
       [''state0'', ''state1'', ''state2'']"

definition bar_updates :: "'f pyval list" where
  "bar_updates =
     [PyStr ''e1'', PyStr ''e1'', PyStr ''e1'', PyStr ''e2'', PyStr ''e3'', PyStr ''e3'']"

section \<open>The class invariant\<close>

text \<open>
  What the constructor establishes and every \<open>update\<close> keeps: the enumeration is
  not empty and its members carry the values \<open>0, 1, \<dots>\<close> in order; the
  dictionary of scalars has exactly the basis elements as keys, each once; every
  scalar is a member of the enumeration.
\<close>

definition enum_ok :: "enum_member list \<Rightarrow> bool" where
  "enum_ok enum \<longleftrightarrow> enum \<noteq> [] \<and> map member_value enum = map int [0..<length enum]"

definition keys_ok :: "EnumStateSpace \<Rightarrow> bool" where
  "keys_ok self \<longleftrightarrow>
     distinct (map fst (scalars self)) \<and> set (map fst (scalars self)) = set (basis_elements self)"

definition invariant :: "EnumStateSpace \<Rightarrow> bool" where
  "invariant self \<longleftrightarrow>
     enum_ok (enum_states self) \<and> keys_ok self
     \<and> list_all (\<lambda>(k, m). enum_contains (enum_states self) m) (scalars self)"

section \<open>Properties of dictionaries\<close>


lemma keys_foldl_update:
  "fst ` set (foldl (\<lambda>d key. AList.update key v d) d0 keys) = fst ` set d0 \<union> set keys"
  by (induction keys arbitrary: d0) (auto simp: dom_update)

lemma distinct_foldl_update:
  "distinct (map fst d0) \<Longrightarrow> distinct (map fst (foldl (\<lambda>d key. AList.update key v d) d0 keys))"
  by (induction keys arbitrary: d0) (auto simp: distinct_update)

lemma values_update:
  "snd ` set (AList.update k v d) \<subseteq> insert v (snd ` set d)"
  by (induction d) auto

lemma values_foldl_update:
  "snd ` set (foldl (\<lambda>d key. AList.update key v d) d0 keys) \<subseteq> insert v (snd ` set d0)"
proof (induction keys arbitrary: d0)
  case Nil
  show ?case by auto
next
  case (Cons key keys)
  have "snd ` set (foldl (\<lambda>d key. AList.update key v d) (AList.update key v d0) keys)
          \<subseteq> insert v (snd ` set (AList.update key v d0))"
    by (rule Cons.IH)
  also have "\<dots> \<subseteq> insert v (snd ` set d0)"
    using values_update [of key v d0] by auto
  finally show ?case by simp
qed


lemma keys_dict_comp: "fst ` set (dict_comp keys v) = set keys"
  by (simp add: dict_comp_def keys_foldl_update)

lemma distinct_dict_comp: "distinct (map fst (dict_comp keys v))"
  by (simp add: dict_comp_def distinct_foldl_update)

lemma values_dict_comp: "snd ` set (dict_comp keys v) \<subseteq> {v}"
  using values_foldl_update [of v "[]" keys] by (simp add: dict_comp_def)

section \<open>Properties of the enumeration\<close>

lemma enum_ok_value:
  assumes "map member_value enum = map int [0..<length enum]" and "i < length enum"
  shows "member_value (enum ! i) = int i"
proof -
  from assms have "map member_value enum ! i = map int [0..<length enum] ! i" by simp
  with assms(2) show ?thesis by simp
qed

lemma enum_call_nth:
  assumes ok: "map member_value enum = map int [0..<length enum]"
    and v: "0 \<le> v" "v < int (length enum)"
  shows "enum_call enum v = Inr (enum ! nat v)"
proof -
  from v have n: "nat v < length enum" by simp
  have here: "member_value (enum ! nat v) = v"
    using enum_ok_value [OF ok n] v by simp
  have before: "\<forall>j<nat v. member_value (enum ! j) \<noteq> v"
  proof (intro allI impI)
    fix j assume "j < nat v"
    with n have "member_value (enum ! j) = int j" by (simp add: enum_ok_value [OF ok])
    with \<open>j < nat v\<close> show "member_value (enum ! j) \<noteq> v" by simp
  qed
  have "find (\<lambda>m. member_value m = v) enum = Some (enum ! nat v)"
    unfolding find_Some_iff using n here before by blast
  then show ?thesis by (simp add: enum_call_def)
qed

lemma enum_call_out_of_range:
  assumes ok: "map member_value enum = map int [0..<length enum]"
    and v: "v < 0 \<or> int (length enum) \<le> v"
  shows "enum_call enum v = Inl ValueError"
proof -
  have "\<not> (\<exists>m. m \<in> set enum \<and> member_value m = v)"
  proof
    assume "\<exists>m. m \<in> set enum \<and> member_value m = v"
    then obtain i where "i < length enum" "member_value (enum ! i) = v"
      by (auto simp: in_set_conv_nth)
    with enum_ok_value [OF ok this(1)] v show False by simp
  qed
  then have "find (\<lambda>m. member_value m = v) enum = None"
    by (simp add: find_None_iff)
  then show ?thesis by (simp add: enum_call_def)
qed

lemma enum_member_nth:
  assumes ok: "map member_value enum = map int [0..<length enum]" and m: "m \<in> set enum"
  shows "0 \<le> member_value m \<and> member_value m < int (length enum) \<and> enum ! nat (member_value m) = m"
proof -
  from m obtain i where i: "i < length enum" "enum ! i = m"
    by (auto simp: in_set_conv_nth)
  with enum_ok_value [OF ok i(1)] show ?thesis by auto
qed

lemma Enum_functional_distinct:
  assumes "distinct names"
  shows "Enum_functional names = Inr (map (\<lambda>i. Member (names ! i) (int i)) [0..<length names])"
proof -
  have "map (\<lambda>(i, n). Member n (int i)) (enumerate 0 names)
        = map (\<lambda>i. Member (names ! i) (int i)) [0..<length names]"
    by (rule nth_equalityI) (simp_all add: nth_enumerate_eq)
  with assms show ?thesis by (simp add: Enum_functional_def)
qed

lemma Enum_functional_Inr:
  assumes "Enum_functional names = Inr enum"
  shows "distinct names \<and> length enum = length names
         \<and> map member_value enum = map int [0..<length enum]
         \<and> map member_name enum = names"
proof -
  from assms have d: "distinct names"
    by (auto simp: Enum_functional_def split: if_splits)
  from assms Enum_functional_distinct [OF d]
  have e: "enum = map (\<lambda>i. Member (names ! i) (int i)) [0..<length names]" by simp
  have "map member_name enum = names"
    unfolding e by (rule nth_equalityI) simp_all
  moreover have "map member_value enum = map int [0..<length enum]"
    unfolding e by (rule nth_equalityI) simp_all
  ultimately show ?thesis using d e by simp
qed

section \<open>The constructor and update keep the invariant\<close>

lemma check_items_all:
  "check_items enum items = list_all (\<lambda>(k, m). enum_contains enum m) items"
  by (induction enum items rule: check_items.induct) simp_all

lemma init_empty: "EnumStateSpace_init fs basis [] = Inl ValueError"
  by (simp add: EnumStateSpace_init_def StateSpace_init_def Let_def Enum_functional_def enum_call_def)

lemma init_duplicate: "\<not> distinct labels \<Longrightarrow> EnumStateSpace_init fs basis labels = Inl TypeError"
  by (simp add: EnumStateSpace_init_def StateSpace_init_def Let_def Enum_functional_def)

lemma init_distinct:
  assumes "distinct labels" and "labels \<noteq> []"
  shows "EnumStateSpace_init fs basis labels =
           Inr \<lparr>basis_elements = map (py_str fs) basis,
                enum_states = map (\<lambda>i. Member (labels ! i) (int i)) [0..<length labels],
                scalars = dict_comp (map (py_str fs) basis) (Member (labels ! 0) 0)\<rparr>"
proof -
  let ?enum = "map (\<lambda>i. Member (labels ! i) (int i)) [0..<length labels]"
  have ok: "map member_value ?enum = map int [0..<length ?enum]"
    by (rule nth_equalityI) simp_all
  from assms(2) have "(0::int) < int (length ?enum)" by simp
  with enum_call_nth [OF ok, of 0] have "enum_call ?enum 0 = Inr (?enum ! 0)" by simp
  also from assms(2) have "?enum ! 0 = Member (labels ! 0) 0" by simp
  finally show ?thesis
    by (simp add: EnumStateSpace_init_def StateSpace_init_def Let_def Enum_functional_distinct [OF assms(1)])
qed

lemma init_Inr:
  assumes "EnumStateSpace_init fs basis labels = Inr self"
  shows "distinct labels \<and> labels \<noteq> []"
proof -
  have "labels \<noteq> []" using assms init_empty [of fs basis] by auto
  moreover have "distinct labels" using assms init_duplicate [of labels fs basis] by auto
  ultimately show ?thesis by simp
qed

lemma invariant_init:
  assumes "EnumStateSpace_init fs basis labels = Inr self"
  shows "invariant self"
proof -
  from init_Inr [OF assms] have d: "distinct labels" and n: "labels \<noteq> []" by simp_all
  let ?enum = "map (\<lambda>i. Member (labels ! i) (int i)) [0..<length labels]"
  let ?origin = "Member (labels ! 0) 0"
  let ?keys = "map (py_str fs) basis"
  from assms init_distinct [OF d n, of fs basis]
  have self: "self = \<lparr>basis_elements = ?keys, enum_states = ?enum,
                       scalars = dict_comp ?keys ?origin\<rparr>"
    by simp
  have be: "basis_elements self = ?keys" and es: "enum_states self = ?enum"
    and sc: "scalars self = dict_comp ?keys ?origin"
    by (simp_all add: self)
  have "map member_value ?enum = map int [0..<length ?enum]"
    by (rule nth_equalityI) simp_all
  with n have e: "enum_ok (enum_states self)" by (simp add: enum_ok_def es)
  have k: "keys_ok self"
    using keys_dict_comp [of ?keys ?origin]
    by (simp add: keys_ok_def be sc distinct_dict_comp)
  from n have "?enum ! 0 \<in> set ?enum" by (intro nth_mem) simp
  moreover from n have "?enum ! 0 = ?origin" by simp
  ultimately have "?origin \<in> set (enum_states self)" unfolding es by (simp only:)
  then have "{?origin} \<subseteq> set (enum_states self)" by simp
  with values_dict_comp [of ?keys ?origin]
  have "snd ` set (dict_comp ?keys ?origin) \<subseteq> set (enum_states self)"
    by (rule subset_trans)
  then have "\<forall>p \<in> set (scalars self). snd p \<in> set (enum_states self)"
    unfolding sc by auto
  then have "list_all (\<lambda>(k, m). enum_contains (enum_states self) m) (scalars self)"
    by (simp add: list_all_iff enum_contains_def case_prod_beta)
  with e k show ?thesis by (simp add: invariant_def)
qed

lemma update_unknown:
  "map_of (scalars self) (py_str fs x) = None \<Longrightarrow> update fs self x = (Inl KeyError, self)"
  by (simp add: update_def)

lemma update_known:
  assumes e: "enum_ok (enum_states self)"
    and m: "map_of (scalars self) (py_str fs x) = Some m"
  shows "update fs self x =
           (Inr (), self\<lparr>scalars := AList.update (py_str fs x)
              (enum_states self ! nat ((member_value m + 1) mod int (length (enum_states self))))
              (scalars self)\<rparr>)"
proof -
  let ?N = "int (length (enum_states self))"
  let ?v = "(member_value m + 1) mod ?N"
  from e have pos: "0 < ?N" and ok: "map member_value (enum_states self) = map int [0..<length (enum_states self)]"
    by (simp_all add: enum_ok_def)
  from pos have "0 \<le> ?v" "?v < ?N" by simp_all
  with enum_call_nth [OF ok] have "enum_call (enum_states self) ?v = Inr (enum_states self ! nat ?v)"
    by blast
  with pos m show ?thesis by (simp add: update_def Let_def)
qed


lemma invariant_update:
  assumes "invariant self"
  shows "invariant (snd (update fs self x))"
proof (cases "map_of (scalars self) (py_str fs x)")
  case None
  with assms show ?thesis by (simp add: update_unknown)
next
  case (Some m)
  let ?enum = "enum_states self"
  let ?key = "py_str fs x"
  let ?new = "?enum ! nat ((member_value m + 1) mod int (length ?enum))"
  let ?self' = "self\<lparr>scalars := AList.update ?key ?new (scalars self)\<rparr>"
  from assms have e: "enum_ok ?enum" and k: "keys_ok self"
    and a: "list_all (\<lambda>(k, m). enum_contains ?enum m) (scalars self)"
    by (simp_all add: invariant_def)
  from e have "0 < int (length ?enum)" by (simp add: enum_ok_def)
  then have "nat ((member_value m + 1) mod int (length ?enum)) < length ?enum"
    by (simp add: nat_less_iff)
  then have new: "?new \<in> set ?enum" by (rule nth_mem)
  from Some have "(?key, m) \<in> set (scalars self)" by (rule map_of_SomeD)
  then have key: "?key \<in> fst ` set (scalars self)" by (rule image_eqI [rotated]) simp
  have upd: "snd (update fs self x) = ?self'"
    unfolding update_known [OF e Some] by (rule snd_conv)
  have "fst ` set (AList.update ?key ?new (scalars self)) = fst ` set (scalars self)"
    unfolding dom_update using key by blast
  with k have k': "keys_ok ?self'"
    by (simp add: keys_ok_def distinct_update)
  from a have "snd ` set (scalars self) \<subseteq> set ?enum"
    by (auto simp: list_all_iff enum_contains_def)
  with new have "insert ?new (snd ` set (scalars self)) \<subseteq> set ?enum" by simp
  with values_update [of ?key ?new "scalars self"]
  have "snd ` set (AList.update ?key ?new (scalars self)) \<subseteq> set ?enum"
    by (rule subset_trans)
  then have "\<forall>p \<in> set (AList.update ?key ?new (scalars self)). snd p \<in> set ?enum"
    by auto
  then have a': "list_all (\<lambda>(k, m). enum_contains ?enum m) (AList.update ?key ?new (scalars self))"
    by (simp add: list_all_iff enum_contains_def case_prod_beta)
  from e k' a' have "invariant ?self'" by (simp add: invariant_def)
  then show ?thesis by (simp only: upd)
qed

lemma reachable_invariant: "reachable fs self \<Longrightarrow> invariant self"
proof (induction rule: reachable.induct)
  case (constructed basis enum_labels self)
  then show ?case by (rule invariant_init)
next
  case (updated self x)
  from updated.IH show ?case by (rule invariant_update)
qed


lemma invariant_unknown:
  assumes "invariant self" and "b \<notin> set (basis_elements self)"
  shows "map_of (scalars self) b = None"
proof -
  from assms have "b \<notin> fst ` set (scalars self)"
    by (simp add: invariant_def keys_ok_def)
  then show ?thesis by (simp add: map_of_eq_None_iff)
qed






section \<open>Concrete instances\<close>

lemma bar_constructed:
  "bar fs = Inr \<lparr>basis_elements = [''e1'', ''e2'', ''e3''],
                  enum_states = [Member ''state0'' 0, Member ''state1'' 1, Member ''state2'' 2],
                  scalars = [(''e1'', Member ''state0'' 0), (''e2'', Member ''state0'' 0),
                             (''e3'', Member ''state0'' 0)]\<rparr>"
  by (simp add: bar_def EnumStateSpace_init_def StateSpace_init_def Let_def Enum_functional_def
        enum_call_def dict_comp_def)

lemma pair_constructed:
  "EnumStateSpace_init fs [PyStr ''e'', PyInt 3] [''a'', ''b''] =
     Inr \<lparr>basis_elements = [''e'', ''3''],
          enum_states = [Member ''a'' 0, Member ''b'' 1],
          scalars = [(''e'', Member ''a'' 0), (''3'', Member ''a'' 0)]\<rparr>"
  by (simp add: EnumStateSpace_init_def StateSpace_init_def Let_def Enum_functional_def
        enum_call_def dict_comp_def str_int_def str_nat.simps [of 3] digit_char_def)

lemma pair_reachable:
  "reachable fs \<lparr>basis_elements = [''e'', ''3''],
          enum_states = [Member ''a'' 0, Member ''b'' 1],
          scalars = [(''e'', Member ''a'' 0), (''3'', Member ''a'' 0)]\<rparr>"
  by (rule reachable.constructed [OF pair_constructed])

lemma single_constructed:
  "EnumStateSpace_init fs [PyStr ''e'', PyStr ''f''] [''0''] =
     Inr \<lparr>basis_elements = [''e'', ''f''],
          enum_states = [Member ''0'' 0],
          scalars = [(''e'', Member ''0'' 0), (''f'', Member ''0'' 0)]\<rparr>"
  by (simp add: EnumStateSpace_init_def StateSpace_init_def Let_def Enum_functional_def
        enum_call_def dict_comp_def)


section \<open>The claims\<close>





text \<open>
  Claim C3, as stated, fails: on the instance built from the basis elements \<open>e\<close>,
  \<open>f\<close> and the single label \<open>0\<close>, \<open>update("g")\<close> does not raise
  \<open>UnknownBasisElementError\<close>.
\<close>

theorem C3_unknown_selector_counterexample:
  "EnumStateSpace_init (id :: string \<Rightarrow> string) [PyStr ''e'', PyStr ''f''] [''0''] =
     Inr \<lparr>basis_elements = [''e'', ''f''], enum_states = [Member ''0'' 0],
          scalars = [(''e'', Member ''0'' 0), (''f'', Member ''0'' 0)]\<rparr>
   \<and> fst (update (id :: string \<Rightarrow> string)
          \<lparr>basis_elements = [''e'', ''f''], enum_states = [Member ''0'' 0],
           scalars = [(''e'', Member ''0'' 0), (''f'', Member ''0'' 0)]\<rparr> (PyStr ''g''))
       \<noteq> Inl UnknownBasisElementError"
  by (simp add: single_constructed update_def)

text \<open>
  Claim C3, amended. In every instance, \<open>update\<close> with a selector whose string
  form is not a basis element raises \<open>KeyError\<close>, the exception of the dictionary
  lookup, and leaves the object, so every scalar, as it was.
\<close>

theorem C3_unknown_selector_KeyError:
  assumes "reachable fs self"
    and "py_str fs x \<notin> set (basis_elements self)"
  shows "update fs self x = (Inl KeyError, self)"
proof -
  from assms(1) have "invariant self" by (rule reachable_invariant)
  from invariant_unknown [OF this assms(2)] show ?thesis by (rule update_unknown)
qed

theorem C3_unknown_selector_KeyError_witness:
  "reachable (id :: string \<Rightarrow> string)
      \<lparr>basis_elements = [''e'', ''3''], enum_states = [Member ''a'' 0, Member ''b'' 1],
       scalars = [(''e'', Member ''a'' 0), (''3'', Member ''a'' 0)]\<rparr>
   \<and> update (id :: string \<Rightarrow> string)
      \<lparr>basis_elements = [''e'', ''3''], enum_states = [Member ''a'' 0, Member ''b'' 1],
       scalars = [(''e'', Member ''a'' 0), (''3'', Member ''a'' 0)]\<rparr> (PyStr ''g'')
     = (Inl KeyError,
        \<lparr>basis_elements = [''e'', ''3''], enum_states = [Member ''a'' 0, Member ''b'' 1],
         scalars = [(''e'', Member ''a'' 0), (''3'', Member ''a'' 0)]\<rparr>)"
proof -
  let ?s = "\<lparr>basis_elements = [''e'', ''3''], enum_states = [Member ''a'' 0, Member ''b'' 1],
       scalars = [(''e'', Member ''a'' 0), (''3'', Member ''a'' 0)]\<rparr>"
  have r: "reachable (id :: string \<Rightarrow> string) ?s" by (rule pair_reachable)
  have n: "py_str (id :: string \<Rightarrow> string) (PyStr ''g'') \<notin> set (basis_elements ?s)" by simp
  from r C3_unknown_selector_KeyError [OF r n] show ?thesis by (rule conjI)
qed



text \<open>
  Claim C5, as stated, fails in its second half: with a single label (as with the
  default \<open>enum_states=("0",)\<close>) a successful \<open>update\<close> stores the scalar it
  found, and no entry of the mapping changes.
\<close>

theorem C5_exactly_one_changes_counterexample:
  "EnumStateSpace_init (id :: string \<Rightarrow> string) [PyStr ''e'', PyStr ''f''] [''0''] =
     Inr \<lparr>basis_elements = [''e'', ''f''], enum_states = [Member ''0'' 0],
          scalars = [(''e'', Member ''0'' 0), (''f'', Member ''0'' 0)]\<rparr>
   \<and> update (id :: string \<Rightarrow> string)
          \<lparr>basis_elements = [''e'', ''f''], enum_states = [Member ''0'' 0],
           scalars = [(''e'', Member ''0'' 0), (''f'', Member ''0'' 0)]\<rparr> (PyStr ''e'')
       = (Inr (), \<lparr>basis_elements = [''e'', ''f''], enum_states = [Member ''0'' 0],
           scalars = [(''e'', Member ''0'' 0), (''f'', Member ''0'' 0)]\<rparr>)"
  by (simp add: single_constructed update_def Let_def enum_call_def)

text \<open>
  Claim C5, amended. In every instance, a successful \<open>update\<close> on \<open>a\<close> leaves
  the scalar of every other basis element and the keys of the mapping as they were;
  the entry of \<open>a\<close> is the only one written, and its scalar differs from the one
  before exactly when the enumeration has at least two labels.
\<close>

theorem C5_isolation:
  assumes "reachable fs self"
    and "update fs self a = (Inr (), self')"
  shows "(\<forall>b. b \<noteq> py_str fs a \<longrightarrow> map_of (scalars self') b = map_of (scalars self) b)
         \<and> map fst (scalars self') = map fst (scalars self)
         \<and> (map_of (scalars self') (py_str fs a) \<noteq> map_of (scalars self) (py_str fs a)
              \<longleftrightarrow> 2 \<le> length (enum_states self))"
proof -
  let ?enum = "enum_states self"
  let ?N = "int (length ?enum)"
  let ?key = "py_str fs a"
  from assms(1) have inv: "invariant self" by (rule reachable_invariant)
  then have e: "enum_ok ?enum" by (simp add: invariant_def)
  then have pos: "0 < ?N" and ok: "map member_value ?enum = map int [0..<length ?enum]"
    by (simp_all add: enum_ok_def)
  from assms(2) obtain m where m: "map_of (scalars self) ?key = Some m"
    by (cases "map_of (scalars self) ?key") (simp_all add: update_unknown)
  let ?new = "?enum ! nat ((member_value m + 1) mod ?N)"
  from update_known [OF e m] assms(2)
  have self': "self' = self\<lparr>scalars := AList.update ?key ?new (scalars self)\<rparr>" by simp
  have others: "\<forall>b. b \<noteq> ?key \<longrightarrow> map_of (scalars self') b = map_of (scalars self) b"
    by (simp add: self' update_conv')
  from m have "(?key, m) \<in> set (scalars self)" by (rule map_of_SomeD)
  then have "?key \<in> fst ` set (scalars self)" by (rule image_eqI [rotated]) simp
  then have keys: "map fst (scalars self') = map fst (scalars self)"
    by (simp add: self' update_keys)
  from \<open>(?key, m) \<in> set (scalars self)\<close> inv have mem: "m \<in> set ?enum"
    by (auto simp: invariant_def list_all_iff enum_contains_def)
  from enum_member_nth [OF ok mem]
  have range: "0 \<le> member_value m" "member_value m < ?N" by simp_all
  from pos have idx: "nat ((member_value m + 1) mod ?N) < length ?enum"
    by (simp add: nat_less_iff)
  from enum_ok_value [OF ok idx] pos
  have val: "member_value ?new = (member_value m + 1) mod ?N" by simp
  have "?new \<noteq> m \<longleftrightarrow> 2 \<le> length ?enum"
  proof
    assume "?new \<noteq> m"
    show "2 \<le> length ?enum"
    proof (rule ccontr)
      assume "\<not> 2 \<le> length ?enum"
      with pos have one: "length ?enum = 1" by (cases "length ?enum") simp_all
      with range have "member_value m = 0" by simp
      with enum_member_nth [OF ok mem] have "?enum ! 0 = m" by simp
      with one \<open>?new \<noteq> m\<close> show False by simp
    qed
  next
    assume two: "2 \<le> length ?enum"
    have "(member_value m + 1) mod ?N \<noteq> member_value m"
    proof (cases "member_value m + 1 < ?N")
      case True
      with range show ?thesis by simp
    next
      case False
      with range have "member_value m + 1 = ?N" by simp
      then have "(member_value m + 1) mod ?N = 0" by simp
      moreover from \<open>member_value m + 1 = ?N\<close> two have "member_value m \<noteq> 0" by simp
      ultimately show ?thesis by simp
    qed
    with val show "?new \<noteq> m" by auto
  qed
  then have changed: "map_of (scalars self') ?key \<noteq> map_of (scalars self) ?key
              \<longleftrightarrow> 2 \<le> length ?enum"
    by (simp add: self' update_conv' m)
  from others keys changed show ?thesis by (intro conjI)
qed

theorem C5_isolation_witness:
  "reachable (id :: string \<Rightarrow> string)
      \<lparr>basis_elements = [''e'', ''3''], enum_states = [Member ''a'' 0, Member ''b'' 1],
       scalars = [(''e'', Member ''a'' 0), (''3'', Member ''a'' 0)]\<rparr>
   \<and> update (id :: string \<Rightarrow> string)
      \<lparr>basis_elements = [''e'', ''3''], enum_states = [Member ''a'' 0, Member ''b'' 1],
       scalars = [(''e'', Member ''a'' 0), (''3'', Member ''a'' 0)]\<rparr> (PyStr ''e'')
     = (Inr (), \<lparr>basis_elements = [''e'', ''3''], enum_states = [Member ''a'' 0, Member ''b'' 1],
       scalars = [(''e'', Member ''b'' 1), (''3'', Member ''a'' 0)]\<rparr>)
   \<and> map_of [(''e'', Member ''b'' 1), (''3'', Member ''a'' 0)] ''3''
       = map_of [(''e'', Member ''a'' 0), (''3'', Member ''a'' 0)] ''3''"
proof -
  let ?s = "\<lparr>basis_elements = [''e'', ''3''], enum_states = [Member ''a'' 0, Member ''b'' 1],
       scalars = [(''e'', Member ''a'' 0), (''3'', Member ''a'' 0)]\<rparr>"
  let ?s' = "\<lparr>basis_elements = [''e'', ''3''], enum_states = [Member ''a'' 0, Member ''b'' 1],
       scalars = [(''e'', Member ''b'' 1), (''3'', Member ''a'' 0)]\<rparr>"
  have r: "reachable (id :: string \<Rightarrow> string) ?s" by (rule pair_reachable)
  have u: "update (id :: string \<Rightarrow> string) ?s (PyStr ''e'') = (Inr (), ?s')"
    by (simp add: update_def Let_def enum_call_def)
  from C5_isolation [OF r u]
  have "\<forall>b. b \<noteq> py_str (id :: string \<Rightarrow> string) (PyStr ''e'')
          \<longrightarrow> map_of (scalars ?s') b = map_of (scalars ?s) b"
    by (rule conjunct1)
  then have "map_of (scalars ?s') ''3'' = map_of (scalars ?s) ''3''" by simp
  with r u show ?thesis by simp
qed



text \<open>
  Claim C7. \<open>check\<close> returns normally, hands the object back as it was, and its
  result is \<open>True\<close> exactly when the scalar of every basis element is the member
  of the enumeration at some index \<open>i\<close> with \<open>0 \<le> i < N\<close>. This holds of every
  object whose dictionary of scalars has the basis elements as its keys, each once
  (\<open>keys_ok\<close>): of every instance, by \<open>reachable_invariant\<close>, and also of an
  object whose scalars were overwritten from outside with foreign members.
\<close>

theorem C7_check:
  assumes "keys_ok self"
  shows "check self =
           (Inr (\<forall>b\<in>set (basis_elements self). \<exists>i<length (enum_states self).
                    map_of (scalars self) b = Some (enum_states self ! i)),
            self)"
proof -
  let ?enum = "enum_states self"
  from assms have d: "distinct (map fst (scalars self))"
    and k: "fst ` set (scalars self) = set (basis_elements self)"
    by (simp_all add: keys_ok_def)
  have "check_items ?enum (scalars self)
          \<longleftrightarrow> (\<forall>b\<in>set (basis_elements self). \<exists>i<length ?enum.
                 map_of (scalars self) b = Some (?enum ! i))"
  proof
    assume c: "check_items ?enum (scalars self)"
    show "\<forall>b\<in>set (basis_elements self). \<exists>i<length ?enum. map_of (scalars self) b = Some (?enum ! i)"
    proof
      fix b assume "b \<in> set (basis_elements self)"
      with k obtain m where bm: "(b, m) \<in> set (scalars self)" by force
      with c have "m \<in> set ?enum"
        by (auto simp: check_items_all list_all_iff enum_contains_def)
      then obtain i where "i < length ?enum" "?enum ! i = m"
        by (auto simp: in_set_conv_nth)
      moreover from d bm have "map_of (scalars self) b = Some m" by simp
      ultimately show "\<exists>i<length ?enum. map_of (scalars self) b = Some (?enum ! i)" by auto
    qed
  next
    assume a: "\<forall>b\<in>set (basis_elements self). \<exists>i<length ?enum. map_of (scalars self) b = Some (?enum ! i)"
    have "\<forall>p\<in>set (scalars self). snd p \<in> set ?enum"
    proof
      fix p assume p: "p \<in> set (scalars self)"
      then have "fst p \<in> set (basis_elements self)" using k by force
      with a obtain i where i: "i < length ?enum" "map_of (scalars self) (fst p) = Some (?enum ! i)"
        by auto
      from p have "(fst p, snd p) \<in> set (scalars self)" by simp
      with d have "map_of (scalars self) (fst p) = Some (snd p)" by (simp only: map_of_eq_Some_iff)
      with i show "snd p \<in> set ?enum" by simp
    qed
    then show "check_items ?enum (scalars self)"
      by (simp add: check_items_all list_all_iff enum_contains_def case_prod_beta)
  qed
  then show ?thesis by (simp add: check_def)
qed

theorem C7_check_witness:
  "keys_ok \<lparr>basis_elements = [''e'', ''f''], enum_states = [Member ''a'' 0, Member ''b'' 1],
            scalars = [(''e'', Member ''b'' 1), (''f'', Member ''c'' 2)]\<rparr>
   \<and> check \<lparr>basis_elements = [''e'', ''f''], enum_states = [Member ''a'' 0, Member ''b'' 1],
            scalars = [(''e'', Member ''b'' 1), (''f'', Member ''c'' 2)]\<rparr>
       = (Inr False,
          \<lparr>basis_elements = [''e'', ''f''], enum_states = [Member ''a'' 0, Member ''b'' 1],
            scalars = [(''e'', Member ''b'' 1), (''f'', Member ''c'' 2)]\<rparr>)"
proof -
  let ?s = "\<lparr>basis_elements = [''e'', ''f''], enum_states = [Member ''a'' 0, Member ''b'' 1],
            scalars = [(''e'', Member ''b'' 1), (''f'', Member ''c'' 2)]\<rparr>"
  have k: "keys_ok ?s" by (simp add: keys_ok_def)
  have "Member ''c'' 2 \<noteq> [Member ''a'' 0, Member ''b'' 1] ! i" if "i < 2" for i :: nat
  proof -
    from that have "i = 0 \<or> i = 1" by arith
    then show ?thesis by auto
  qed
  then have nf: "\<not> (\<exists>i<length (enum_states ?s). map_of (scalars ?s) ''f'' = Some (enum_states ?s ! i))"
    by simp
  have "''f'' \<in> set (basis_elements ?s)" by simp
  with nf have "\<not> (\<forall>b\<in>set (basis_elements ?s). \<exists>i<length (enum_states ?s).
                    map_of (scalars ?s) b = Some (enum_states ?s ! i))"
    by blast
  with C7_check [OF k] have "check ?s = (Inr False, ?s)" by simp
  with k show ?thesis by (rule conjI)
qed



text \<open>
  Claim C9. The scenario of the module's script: the object constructed from
  \<open>e1, e2, e3\<close> and \<open>state0, state1, state2\<close>, the six updates, the display
  string, \<open>check\<close> returning \<open>True\<close> and \<open>resolve\<close> returning \<open>None\<close>, both
  without changing the object.
\<close>

theorem C9_scenario:
  "bar fs = Inr \<lparr>basis_elements = [''e1'', ''e2'', ''e3''],
                  enum_states = [Member ''state0'' 0, Member ''state1'' 1, Member ''state2'' 2],
                  scalars = [(''e1'', Member ''state0'' 0), (''e2'', Member ''state0'' 0),
                             (''e3'', Member ''state0'' 0)]\<rparr>
   \<and> updates fs \<lparr>basis_elements = [''e1'', ''e2'', ''e3''],
                  enum_states = [Member ''state0'' 0, Member ''state1'' 1, Member ''state2'' 2],
                  scalars = [(''e1'', Member ''state0'' 0), (''e2'', Member ''state0'' 0),
                             (''e3'', Member ''state0'' 0)]\<rparr> bar_updates
       = (Inr (), \<lparr>basis_elements = [''e1'', ''e2'', ''e3''],
                  enum_states = [Member ''state0'' 0, Member ''state1'' 1, Member ''state2'' 2],
                  scalars = [(''e1'', Member ''state0'' 0), (''e2'', Member ''state1'' 1),
                             (''e3'', Member ''state2'' 2)]\<rparr>)
   \<and> EnumStateSpace_str \<lparr>basis_elements = [''e1'', ''e2'', ''e3''],
                  enum_states = [Member ''state0'' 0, Member ''state1'' 1, Member ''state2'' 2],
                  scalars = [(''e1'', Member ''state0'' 0), (''e2'', Member ''state1'' 1),
                             (''e3'', Member ''state2'' 2)]\<rparr>
       = (Inr ''state0<e1> + state1<e2> + state2<e3>'',
          \<lparr>basis_elements = [''e1'', ''e2'', ''e3''],
                  enum_states = [Member ''state0'' 0, Member ''state1'' 1, Member ''state2'' 2],
                  scalars = [(''e1'', Member ''state0'' 0), (''e2'', Member ''state1'' 1),
                             (''e3'', Member ''state2'' 2)]\<rparr>)
   \<and> check \<lparr>basis_elements = [''e1'', ''e2'', ''e3''],
                  enum_states = [Member ''state0'' 0, Member ''state1'' 1, Member ''state2'' 2],
                  scalars = [(''e1'', Member ''state0'' 0), (''e2'', Member ''state1'' 1),
                             (''e3'', Member ''state2'' 2)]\<rparr>
       = (Inr True,
          \<lparr>basis_elements = [''e1'', ''e2'', ''e3''],
                  enum_states = [Member ''state0'' 0, Member ''state1'' 1, Member ''state2'' 2],
                  scalars = [(''e1'', Member ''state0'' 0), (''e2'', Member ''state1'' 1),
                             (''e3'', Member ''state2'' 2)]\<rparr>)
   \<and> resolve \<lparr>basis_elements = [''e1'', ''e2'', ''e3''],
                  enum_states = [Member ''state0'' 0, Member ''state1'' 1, Member ''state2'' 2],
                  scalars = [(''e1'', Member ''state0'' 0), (''e2'', Member ''state1'' 1),
                             (''e3'', Member ''state2'' 2)]\<rparr>
       = (Inr (),
          \<lparr>basis_elements = [''e1'', ''e2'', ''e3''],
                  enum_states = [Member ''state0'' 0, Member ''state1'' 1, Member ''state2'' 2],
                  scalars = [(''e1'', Member ''state0'' 0), (''e2'', Member ''state1'' 1),
                             (''e3'', Member ''state2'' 2)]\<rparr>)"
proof -
  let ?enum = "[Member ''state0'' 0, Member ''state1'' 1, Member ''state2'' 2]"
  let ?start = "\<lparr>basis_elements = [''e1'', ''e2'', ''e3''], enum_states = ?enum,
             scalars = [(''e1'', Member ''state0'' 0), (''e2'', Member ''state0'' 0),
                        (''e3'', Member ''state0'' 0)]\<rparr>"
  let ?final = "\<lparr>basis_elements = [''e1'', ''e2'', ''e3''], enum_states = ?enum,
             scalars = [(''e1'', Member ''state0'' 0), (''e2'', Member ''state1'' 1),
                        (''e3'', Member ''state2'' 2)]\<rparr>"
  have constructed: "bar fs = Inr ?start" by (rule bar_constructed)
  have updated: "updates fs ?start bar_updates = (Inr (), ?final)"
    by (simp add: bar_updates_def update_def Let_def enum_call_def)
  have display: "EnumStateSpace_str ?final = (Inr ''state0<e1> + state1<e2> + state2<e3>'', ?final)"
    by (simp add: EnumStateSpace_str_def)
  have checked: "check ?final = (Inr True, ?final)"
    by (simp add: check_def enum_contains_def)
  have resolved: "resolve ?final = (Inr (), ?final)"
    by (simp add: resolve_def)
  from constructed updated display checked resolved show ?thesis by (intro conjI)
qed



end
